theory Spec2Isabelle
  imports Main
begin

section \<open>Soutien: a callable guarded by its requirements\<close>

text \<open>
  The development embeds \<^verbatim>\<open>Soutien::GuardedFunction\<close> of \<^verbatim>\<open>Soutien.h\<close>:
  its four data members, its constructor and factory, the call operator and the two
  observers. Everything the C++ does beyond returning a value is explicit here: the
  stream \<^verbatim>\<open>std::cout\<close> and the rest of the program's state are a value passed in and
  out, an exception leaving the wrapped callable is a returned \<open>Some x\<close>.
\<close>

subsection \<open>The program state outside the task objects\<close>

text \<open>
  \<open>cout\<close> is the sequence of characters written to \<^verbatim>\<open>std::cout\<close> so far; \<open>globals\<close>
  stands for whatever else the wrapped callables read and write.
\<close>

record 'g world =
  cout :: string
  globals :: 'g

subsection \<open>The template parameter \<^verbatim>\<open>Func\<close>\<close>

text \<open>
  \<^verbatim>\<open>Func\<close> is any type with a call operator; the object is stored by value in
  \<^verbatim>\<open>mFunction\<close> and called as \<^verbatim>\<open>mFunction()\<close> from the non-const call operator of
  the task, so a callable whose own call operator is not const (a \<^verbatim>\<open>mutable\<close> lambda,
  a functor with counters) may change its data members when called. A callable is
  therefore its data members \<open>captures\<close> and the code \<open>body\<close> of its call operator,
  which maps the captures and the world to: the exception thrown, if any; the
  captures afterwards; the world afterwards. What the body did before it threw stays
  done.
\<close>

record ('c, 'x, 'g) callable =
  captures :: 'c
  body :: "'c \<Rightarrow> 'g world \<Rightarrow> 'x option \<times> 'c \<times> 'g world"

definition call :: "('c, 'x, 'g) callable \<Rightarrow> 'g world \<Rightarrow> 'x option \<times> ('c, 'x, 'g) callable \<times> 'g world" where
  "call f w = (case body f (captures f) w of (fault, c', w') \<Rightarrow> (fault, f\<lparr>captures := c'\<rparr>, w'))"

subsection \<open>The struct\<close>

text \<open>
  \<^verbatim>\<open>
  Func mFunction;
  const char* mName;
  std::tuple<Requirements...> mRequirements;
  bool mSatisfied { false };
  \<close>
  The constructor takes \<^verbatim>\<open>Requirements... reqs\<close> by value and the tuple stores
  \<^verbatim>\<open>Requirements\<close>; \<^verbatim>\<open>createGuardedFunction(Func f, const char* name, Dependencies... deps)\<close>
  deduces each \<^verbatim>\<open>Dependencies\<close> from a by-value parameter, which is never a reference
  type. A task built by the factory or by \<^verbatim>\<open>GUARDED_FUNCTION\<close> with deduced template
  arguments thus contains a copy of every requirement, made when the task is built;
  this is the task modelled here. (Reference types written out as template arguments
  would make the tuple hold references; nothing in the repository does so.) The
  requirements of the demonstration program are tasks themselves, so the members of
  the tuple are tasks, in the order of the parameter pack.
\<close>

datatype ('c, 'x, 'g) GuardedFunction =
  GuardedFunction
    (mFunction: "('c, 'x, 'g) callable")
    (mName: string)
    (mRequirements: "('c, 'x, 'g) GuardedFunction list")
    (mSatisfied: bool)

text \<open>
  \<^verbatim>\<open>GuardedFunction(Func func, const char* name, Requirements... reqs)
      : mFunction(func), mName(name), mRequirements(reqs...) {}\<close>
  with the default member initialiser \<^verbatim>\<open>mSatisfied { false }\<close>, reached through
  \<^verbatim>\<open>createGuardedFunction\<close>. The macro \<^verbatim>\<open>GUARDED_FUNCTION(func, ...)\<close> is the same call
  with the spelling of \<^verbatim>\<open>func\<close> as the name.
\<close>

definition createGuardedFunction ::
  "('c, 'x, 'g) callable \<Rightarrow> string \<Rightarrow> ('c, 'x, 'g) GuardedFunction list \<Rightarrow> ('c, 'x, 'g) GuardedFunction" where
  "createGuardedFunction f name deps = GuardedFunction f name deps False"

text \<open>\<^verbatim>\<open>bool satisfied() const { return mSatisfied; }\<close>\<close>

definition satisfied :: "('c, 'x, 'g) GuardedFunction \<Rightarrow> bool" where
  "satisfied t = mSatisfied t"

text \<open>\<^verbatim>\<open>const char* name() const { return mName; }\<close>\<close>

definition name :: "('c, 'x, 'g) GuardedFunction \<Rightarrow> string" where
  "name t = mName t"

subsection \<open>The call operator\<close>

text \<open>
  The text one unmet requirement sends to \<^verbatim>\<open>std::cout\<close>:
  \<^verbatim>\<open>"Dependency `" << req.name() << "` not met. Blocking `" << mName << "`\n"\<close>.
  The names stand between grave accents (character 0x60) and the line ends with a
  line feed.
\<close>

definition diagnostic :: "string \<Rightarrow> string \<Rightarrow> string" where
  "diagnostic dep blocked =
     ''Dependency `'' @ dep @ ''` not met. Blocking `'' @ blocked @ ''`'' @ [CHR 0x0A]"

text \<open>
  One element of the fold expression,
  \<^verbatim>\<open>allMet &= req.satisfied() || (std::cout << ..., false)\<close>:
  \<^verbatim>\<open>||\<close> evaluates its right operand, which prints and yields false, only when
  \<^verbatim>\<open>req.satisfied()\<close> is false; \<^verbatim>\<open>&=\<close> always evaluates its right operand.
\<close>

definition check_req ::
  "string \<Rightarrow> ('c, 'x, 'g) GuardedFunction \<Rightarrow> bool \<times> 'g world \<Rightarrow> bool \<times> 'g world" where
  "check_req blocked req acc =
     (case acc of (allMet, w) \<Rightarrow>
        if satisfied req then (allMet \<and> True, w)
        else (allMet \<and> False, w\<lparr>cout := cout w @ diagnostic (name req) blocked\<rparr>))"

text \<open>
  The fold over the comma operator visits the pack from left to right:
  \<^verbatim>\<open>std::apply([&](const auto&... req) { ((allMet &= ...), ...); }, mRequirements)\<close>.
\<close>

primrec check_reqs ::
  "string \<Rightarrow> ('c, 'x, 'g) GuardedFunction list \<Rightarrow> bool \<times> 'g world \<Rightarrow> bool \<times> 'g world" where
  "check_reqs blocked [] acc = acc"
| "check_reqs blocked (req # reqs) acc = check_reqs blocked reqs (check_req blocked req acc)"

text \<open>
  \<^verbatim>\<open>
  void operator()() {
      bool allMet = true;
      std::apply(..., mRequirements);
      if (allMet) {
          mFunction();
          mSatisfied = true;
      }
  }
  \<close>
  The result is the exception that leaves the call (none on a normal return), the task
  object afterwards and the world afterwards. An exception thrown by \<^verbatim>\<open>mFunction()\<close>
  is not caught, so \<^verbatim>\<open>mSatisfied = true\<close> is skipped.
\<close>

definition operator_call ::
  "('c, 'x, 'g) GuardedFunction \<Rightarrow> 'g world \<Rightarrow> 'x option \<times> ('c, 'x, 'g) GuardedFunction \<times> 'g world" where
  "operator_call t w =
     (case check_reqs (mName t) (mRequirements t) (True, w) of (allMet, w1) \<Rightarrow>
        if allMet then
          (case call (mFunction t) w1 of
             (Some x, f', w2) \<Rightarrow>
               (Some x, GuardedFunction f' (mName t) (mRequirements t) (mSatisfied t), w2)
           | (None, f', w2) \<Rightarrow>
               (None, GuardedFunction f' (mName t) (mRequirements t) True, w2))
        else (None, t, w1))"

subsection \<open>What one call of the operator writes on behalf of the wrapper\<close>

text \<open>
  The diagnostics of a call are what the fold has appended to \<^verbatim>\<open>std::cout\<close> when it
  ends, before the wrapped callable (which may print too) is reached.
\<close>

definition unmet :: "('c, 'x, 'g) GuardedFunction list \<Rightarrow> ('c, 'x, 'g) GuardedFunction list" where
  "unmet reqs = filter (\<lambda>req. \<not> satisfied req) reqs"

definition reports :: "string \<Rightarrow> ('c, 'x, 'g) GuardedFunction list \<Rightarrow> string" where
  "reports blocked reqs = concat (map (\<lambda>req. diagnostic (name req) blocked) reqs)"

definition emitted :: "('c, 'x, 'g) GuardedFunction \<Rightarrow> 'g world \<Rightarrow> string" where
  "emitted t w =
     drop (length (cout w)) (cout (snd (check_reqs (mName t) (mRequirements t) (True, w))))"

subsection \<open>The three operations a holder of a task can apply\<close>

text \<open>
  The public members are the call operator and the two const observers. A reply is
  what the caller gets back: a normal return of the \<^verbatim>\<open>void\<close> call operator, the
  exception that left it, or the value of an observer.
\<close>

datatype operation = Invoke | Satisfied | Name

datatype 'x reply = Returned | Thrown 'x | Flag bool | Text string

fun perform ::
  "operation \<Rightarrow> ('c, 'x, 'g) GuardedFunction \<Rightarrow> 'g world \<Rightarrow> 'x reply \<times> ('c, 'x, 'g) GuardedFunction \<times> 'g world" where
  "perform Invoke t w =
     (case operator_call t w of
        (Some x, t', w') \<Rightarrow> (Thrown x, t', w')
      | (None, t', w') \<Rightarrow> (Returned, t', w'))"
| "perform Satisfied t w = (Flag (satisfied t), t, w)"
| "perform Name t w = (Text (name t), t, w)"

text \<open>
  \<open>evolves t t'\<close>: the task object \<open>t\<close> becomes \<open>t'\<close> by some finite sequence of
  operations, each applied in whatever world the rest of the program has left.
\<close>

inductive evolves :: "('c, 'x, 'g) GuardedFunction \<Rightarrow> ('c, 'x, 'g) GuardedFunction \<Rightarrow> bool" where
  evolves_refl: "evolves t t"
| evolves_step: "evolves t t1 \<Longrightarrow> perform oper t1 w = (r, t2, w') \<Longrightarrow> evolves t t2"

text \<open>
  Two calls of the operator on the same object, one after the other. The caller
  goes on to the second call whether the first returned or threw (it has caught the
  exception); the reply kept is that of the second call.
\<close>

definition invoke_twice ::
  "('c, 'x, 'g) GuardedFunction \<Rightarrow> 'g world \<Rightarrow> 'x option \<times> ('c, 'x, 'g) GuardedFunction \<times> 'g world" where
  "invoke_twice t w = (case operator_call t w of (x1, t1, w1) \<Rightarrow> operator_call t1 w1)"

subsection \<open>Callables and programs used as concrete inputs\<close>

text \<open>
  The lambdas of \<^verbatim>\<open>main.cpp\<close>, \<^verbatim>\<open>[]() { std::cout << "a() executed\n"; }\<close> and its three
  siblings: no captures, one line written.
\<close>

definition executed :: "string \<Rightarrow> (unit, 'x, 'g) callable" where
  "executed who =
     \<lparr>captures = (),
      body = (\<lambda>c w. (None, c, w\<lparr>cout := cout w @ who @ ''() executed'' @ [CHR 0x0A]\<rparr>))\<rparr>"

definition lambda_a :: "(unit, string, unit) callable" where "lambda_a = executed ''a''"
definition lambda_b :: "(unit, string, unit) callable" where "lambda_b = executed ''b''"
definition lambda_c :: "(unit, string, unit) callable" where "lambda_c = executed ''c''"
definition lambda_d :: "(unit, string, unit) callable" where "lambda_d = executed ''d''"

text \<open>
  \<^verbatim>\<open>[n = 0]() mutable { ++n; }\<close>: a callable that counts its own calls in a captured
  variable.
\<close>

definition counting :: "(nat, string, unit) callable" where
  "counting = \<lparr>captures = 0, body = (\<lambda>n w. (None, Suc n, w))\<rparr>"

text \<open>
  A callable that must run once only and enforces it with a global flag:
  \<^verbatim>\<open>[]() { if (done) throw "again"; done = true; }\<close>.
\<close>

definition once_only :: "(unit, string, bool) callable" where
  "once_only =
     \<lparr>captures = (),
      body = (\<lambda>c w. if globals w then (Some ''again'', c, w) else (None, c, w\<lparr>globals := True\<rparr>))\<rparr>"

text \<open>\<^verbatim>\<open>[]() { throw "broken"; }\<close>\<close>

definition throwing :: "(unit, string, unit) callable" where
  "throwing = \<lparr>captures = (), body = (\<lambda>c w. (Some ''broken'', c, w))\<rparr>"

definition quiet :: "unit world" where
  "quiet = \<lparr>cout = [], globals = ()\<rparr>"

definition not_done :: "bool world" where
  "not_done = \<lparr>cout = [], globals = False\<rparr>"

text \<open>
  A task without requirements that has never been called, and the same task after
  one call in a world with nothing written yet.
\<close>

definition fresh_task :: "('c, string, unit) callable \<Rightarrow> string \<Rightarrow> ('c, string, unit) GuardedFunction" where
  "fresh_task f n = createGuardedFunction f n []"

definition called_task :: "('c, string, unit) callable \<Rightarrow> string \<Rightarrow> ('c, string, unit) GuardedFunction" where
  "called_task f n = fst (snd (operator_call (createGuardedFunction f n []) quiet))"

text \<open>
  The demonstration program:
  \<^verbatim>\<open>
  auto task_a = createGuardedFunction(a, "a");
  task_a();
  auto task_b = createGuardedFunction(b, "b");
  auto task_c = GUARDED_FUNCTION(c, task_a, task_b);
  task_c();
  auto task_d = GUARDED_FUNCTION(d, task_c);
  task_d();
  \<close>
  The result is the world at the end, or the exception that ended the program.
\<close>

definition main_cpp :: "unit world \<Rightarrow> string + unit world" where
  "main_cpp w =
     (let task_a = createGuardedFunction lambda_a ''a'' []
      in case operator_call task_a w of (Some x, _, _) \<Rightarrow> Inl x | (None, task_a, w) \<Rightarrow>
     (let task_b = createGuardedFunction lambda_b ''b'' [];
          task_c = createGuardedFunction lambda_c ''c'' [task_a, task_b]
      in case operator_call task_c w of (Some x, _, _) \<Rightarrow> Inl x | (None, task_c, w) \<Rightarrow>
     (let task_d = createGuardedFunction lambda_d ''d'' [task_c]
      in case operator_call task_d w of (Some x, _, _) \<Rightarrow> Inl x | (None, task_d, w) \<Rightarrow>
            Inr w)))"



text \<open>The world after a callable has been called in \<open>w\<close>.\<close>

definition after :: "('c, 'x, 'g) callable \<Rightarrow> 'g world \<Rightarrow> 'g world" where
  "after f w = snd (snd (call f w))"

subsection \<open>The diagnostic line as the specification words it\<close>

text \<open>
  The specification gives the line as
  \<^verbatim>\<open>Dependency '<dep-name>' not met. Blocking '<task-name>'\<close>, the names between
  apostrophes (character 0x27). This definition follows those words, for comparison
  with \<open>diagnostic\<close>, which follows the source.
\<close>

definition diagnostic_as_specified :: "string \<Rightarrow> string \<Rightarrow> string" where
  "diagnostic_as_specified dep blocked =
     ''Dependency '' @ [CHR 0x27] @ dep @ [CHR 0x27] @ '' not met. Blocking '' @
     [CHR 0x27] @ blocked @ [CHR 0x27]"

section \<open>The fold over the requirements\<close>

lemmas example_defs =
  fresh_task_def called_task_def createGuardedFunction_def operator_call_def check_req_def
  call_def satisfied_def name_def diagnostic_def quiet_def not_done_def
  lambda_a_def lambda_b_def lambda_c_def lambda_d_def executed_def counting_def
  once_only_def throwing_def after_def Let_def

lemma check_reqs_result:
  "check_reqs blocked reqs (b, w) =
     (b \<and> unmet reqs = [], w\<lparr>cout := cout w @ reports blocked (unmet reqs)\<rparr>)"
proof (induction reqs arbitrary: b w)
  case Nil
  show ?case by (simp add: unmet_def reports_def)
next
  case (Cons req reqs)
  show ?case
  proof (cases "satisfied req")
    case True
    then show ?thesis using Cons.IH [of b w]
      by (simp add: check_req_def unmet_def)
  next
    case False
    then show ?thesis
      using Cons.IH [of False "w\<lparr>cout := cout w @ diagnostic (name req) blocked\<rparr>"]
      by (simp add: check_req_def unmet_def reports_def)
  qed
qed

lemma emitted_reports: "emitted t w = reports (mName t) (unmet (mRequirements t))"
  by (simp add: emitted_def check_reqs_result)

lemma unmet_nonempty: "(unmet reqs \<noteq> []) = (\<exists>req\<in>set reqs. \<not> satisfied req)"
  by (auto simp: unmet_def filter_empty_conv)

lemma unmet_empty: "(unmet reqs = []) = (\<forall>req\<in>set reqs. satisfied req)"
  by (auto simp: unmet_def filter_empty_conv)

lemma unmet_append: "unmet (xs @ ys) = unmet xs @ unmet ys"
  by (simp add: unmet_def)

lemma unmet_Cons: "unmet (x # xs) = (if satisfied x then unmet xs else x # unmet xs)"
  by (simp add: unmet_def)

lemma reports_append: "reports blocked (xs @ ys) = reports blocked xs @ reports blocked ys"
  by (simp add: reports_def)

lemma reports_Cons: "reports blocked (x # xs) = diagnostic (name x) blocked @ reports blocked xs"
  by (simp add: reports_def)

lemma reports_Nil: "reports blocked [] = []"
  by (simp add: reports_def)

section \<open>The two ways through the call operator\<close>

text \<open>Some requirement unmet: the diagnostics are written and nothing else happens.\<close>

lemma operator_call_blocked:
  "unmet (mRequirements t) \<noteq> [] \<Longrightarrow>
     operator_call t w = (None, t, w\<lparr>cout := cout w @ emitted t w\<rparr>)"
  by (simp add: operator_call_def check_reqs_result emitted_reports)

text \<open>
  No requirement unmet: nothing is written by the wrapper, the callable is called in
  the world as it was, and the flag is set unless the callable threw.
\<close>

lemma operator_call_open:
  "unmet (mRequirements t) = [] \<Longrightarrow>
     operator_call t w =
       (case call (mFunction t) w of
          (fault, f', w') \<Rightarrow>
            (fault, GuardedFunction f' (mName t) (mRequirements t) (fault = None \<or> mSatisfied t), w'))"
  by (cases "call (mFunction t) w" rule: prod_cases3)
     (auto simp: operator_call_def check_reqs_result reports_Nil split: option.splits)

lemma perform_keeps_satisfied:
  "perform oper t w = (r, t', w') \<Longrightarrow> satisfied t \<Longrightarrow> satisfied t'"
proof (cases oper)
  case Invoke
  assume p: "perform oper t w = (r, t', w')" and s: "satisfied t"
  show ?thesis
  proof (cases "unmet (mRequirements t) = []")
    case True
    with p s Invoke show ?thesis
      by (cases "call (mFunction t) w" rule: prod_cases3)
         (auto simp: operator_call_open satisfied_def split: option.splits)
  next
    case False
    with p s Invoke show ?thesis
      by (auto simp: operator_call_blocked)
  qed
qed auto

section \<open>The demonstration program\<close>

text \<open>
  \<^verbatim>\<open>task_a\<close> runs; \<^verbatim>\<open>task_c\<close> is blocked by its copy of the uncalled \<^verbatim>\<open>task_b\<close>;
  \<^verbatim>\<open>task_d\<close> is blocked by its copy of \<^verbatim>\<open>task_c\<close>.
\<close>

lemma main_cpp_output:
  "main_cpp quiet =
     Inr \<lparr>cout = ''a() executed'' @ [CHR 0x0A] @
                 ''Dependency `b` not met. Blocking `c`'' @ [CHR 0x0A] @
                 ''Dependency `c` not met. Blocking `d`'' @ [CHR 0x0A],
          globals = ()\<rparr>"
  by (simp add: main_cpp_def example_defs)

section \<open>The claims\<close>

subsection \<open>Stored requirements and the four-task scenario\<close>








subsection \<open>The diagnostics\<close>

text \<open>
  Claim C2, as the code has it. For every task and every unmet requirement met
  during a call, the line written for it is exactly
  \<^verbatim>\<open>Dependency `<dep-name>` not met. Blocking `<task-name>`\<close> followed by a line feed,
  the two names between grave accents: with the requirement at any position of the
  list, the output of the call is the reports for the requirements before it, this
  line, and the reports for the requirements after it.
\<close>

theorem diagnostic_line:
  assumes "mRequirements t = xs @ req # ys" and "\<not> satisfied req"
  shows "cout (snd (snd (operator_call t w))) =
           cout w @ reports (mName t) (unmet xs) @
           ''Dependency `'' @ name req @ ''` not met. Blocking `'' @ name t @ ''`'' @ [CHR 0x0A] @
           reports (mName t) (unmet ys)"
proof -
  have "unmet (mRequirements t) = unmet xs @ req # unmet ys"
    using assms by (simp add: unmet_append unmet_Cons)
  moreover from this have "unmet (mRequirements t) \<noteq> []" by simp
  ultimately show ?thesis
    by (simp add: operator_call_blocked emitted_reports reports_append reports_Cons
        diagnostic_def name_def)
qed

text \<open>
  The task \<^verbatim>\<open>task_c\<close> of \<^verbatim>\<open>main.cpp\<close>: built from a called \<^verbatim>\<open>task_a\<close> and a fresh
  \<^verbatim>\<open>task_b\<close>, it writes one line, about b.
\<close>

theorem diagnostic_line_witness:
  "mRequirements (createGuardedFunction lambda_c ''c'' [called_task lambda_a ''a'', fresh_task lambda_b ''b''])
     = [called_task lambda_a ''a''] @ fresh_task lambda_b ''b'' # []
   \<and> \<not> satisfied (fresh_task lambda_b ''b'')
   \<and> cout (snd (snd (operator_call
        (createGuardedFunction lambda_c ''c'' [called_task lambda_a ''a'', fresh_task lambda_b ''b'']) quiet)))
     = ''Dependency `b` not met. Blocking `c`'' @ [CHR 0x0A]"
  using diagnostic_line [of "createGuardedFunction lambda_c ''c'' [called_task lambda_a ''a'', fresh_task lambda_b ''b'']"
      "[called_task lambda_a ''a'']" "fresh_task lambda_b ''b''" "[]" quiet]
  by (simp add: example_defs unmet_def reports_def)

text \<open>
  Claim C2 as stated fails: what that call writes is not the line with apostrophes,
  with or without a line feed after it.
\<close>

theorem apostrophes_not_written:
  "cout (snd (snd (operator_call
        (createGuardedFunction lambda_c ''c'' [called_task lambda_a ''a'', fresh_task lambda_b ''b'']) quiet)))
     \<noteq> diagnostic_as_specified ''b'' ''c''
   \<and> cout (snd (snd (operator_call
        (createGuardedFunction lambda_c ''c'' [called_task lambda_a ''a'', fresh_task lambda_b ''b'']) quiet)))
     \<noteq> diagnostic_as_specified ''b'' ''c'' @ [CHR 0x0A]"
  by (simp add: example_defs diagnostic_as_specified_def)

text \<open>
  Claim C3. The check is not short-circuited: in one call of a task with an unmet
  requirement, what is written is the diagnostic of every requirement whose
  \<open>satisfied\<close> is false, not only of the first.
\<close>

theorem every_unmet_reported:
  "\<exists>req\<in>set (mRequirements t). \<not> satisfied req \<Longrightarrow>
   cout (snd (snd (operator_call t w))) = cout w @ reports (mName t) (unmet (mRequirements t))"
  by (simp add: operator_call_blocked unmet_nonempty emitted_reports)

text \<open>Requirements X unsatisfied, Y satisfied, Z unsatisfied: both X and Z are reported.\<close>

theorem every_unmet_reported_witness:
  "map satisfied [fresh_task lambda_a ''X'', called_task lambda_b ''Y'', fresh_task lambda_c ''Z'']
     = [False, True, False]
   \<and> cout (snd (snd (operator_call
        (createGuardedFunction lambda_d ''T''
           [fresh_task lambda_a ''X'', called_task lambda_b ''Y'', fresh_task lambda_c ''Z'']) quiet)))
     = ''Dependency `X` not met. Blocking `T`'' @ [CHR 0x0A] @
       ''Dependency `Z` not met. Blocking `T`'' @ [CHR 0x0A]"
  using every_unmet_reported [of "createGuardedFunction lambda_d ''T''
           [fresh_task lambda_a ''X'', called_task lambda_b ''Y'', fresh_task lambda_c ''Z'']" quiet]
  by (simp add: example_defs unmet_def reports_def)

text \<open>
  Claim C9. In one call the diagnostics come in the order of the requirements given
  at construction: of two unmet requirements, the one earlier in the list is reported
  before the later one.
\<close>

theorem reported_in_order:
  assumes "mRequirements t = xs @ x # ys @ y # zs" and "\<not> satisfied x" and "\<not> satisfied y"
  shows "cout (snd (snd (operator_call t w))) =
           cout w @ reports (mName t) (unmet xs) @ diagnostic (name x) (mName t) @
           reports (mName t) (unmet ys) @ diagnostic (name y) (mName t) @
           reports (mName t) (unmet zs)"
proof -
  have "unmet (mRequirements t) = unmet xs @ x # unmet ys @ y # unmet zs"
    using assms by (simp add: unmet_append unmet_Cons)
  moreover from this have "unmet (mRequirements t) \<noteq> []" by simp
  ultimately show ?thesis
    by (simp add: operator_call_blocked emitted_reports reports_append reports_Cons)
qed

theorem reported_in_order_witness:
  "map satisfied [called_task lambda_a ''P'', fresh_task lambda_a ''Q'',
                  called_task lambda_a ''R'', fresh_task lambda_a ''S'']
     = [True, False, True, False]
   \<and> cout (snd (snd (operator_call
        (createGuardedFunction lambda_d ''T''
           [called_task lambda_a ''P'', fresh_task lambda_a ''Q'',
            called_task lambda_a ''R'', fresh_task lambda_a ''S''])
        quiet)))
     = ''Dependency `Q` not met. Blocking `T`'' @ [CHR 0x0A] @
       ''Dependency `S` not met. Blocking `T`'' @ [CHR 0x0A]"
  using reported_in_order [of "createGuardedFunction lambda_d ''T''
           [called_task lambda_a ''P'', fresh_task lambda_a ''Q'',
            called_task lambda_a ''R'', fresh_task lambda_a ''S'']"
      "[called_task lambda_a ''P'']" "fresh_task lambda_a ''Q''" "[called_task lambda_a ''R'']"
      "fresh_task lambda_a ''S''" "[]" quiet]
  by (simp add: example_defs unmet_def reports_def)

subsection \<open>Running the wrapped callable\<close>

text \<open>
  Claim C4, as the code has it. For every task whose requirements are all satisfied
  at the call (none at all included), the call runs the wrapped callable exactly
  once, in the world as it was, and passes on what the callable does: the world and
  the callable object afterwards are those of one call of the callable, and so is the
  exception, if any. The task is satisfied after the call when the callable returned
  normally; when it threw, the flag is what it was before.
\<close>

theorem runs_once_when_all_met:
  assumes "\<forall>req\<in>set (mRequirements t). satisfied req"
  shows "snd (snd (operator_call t w)) = after (mFunction t) w
       \<and> mFunction (fst (snd (operator_call t w))) = fst (snd (call (mFunction t) w))
       \<and> fst (operator_call t w) = fst (call (mFunction t) w)
       \<and> satisfied (fst (snd (operator_call t w))) = (fst (operator_call t w) = None \<or> satisfied t)"
  using assms
  by (cases "call (mFunction t) w" rule: prod_cases3)
     (simp add: operator_call_open unmet_empty after_def satisfied_def)

text \<open>A counting callable behind one satisfied requirement: one call, counter at 1.\<close>

theorem runs_once_when_all_met_witness:
  "map satisfied (mRequirements (createGuardedFunction counting ''job'' [called_task counting ''dep''])) = [True]
   \<and> fst (operator_call (createGuardedFunction counting ''job'' [called_task counting ''dep'']) quiet) = None
   \<and> captures (mFunction (fst (snd (operator_call
        (createGuardedFunction counting ''job'' [called_task counting ''dep'']) quiet)))) = 1
   \<and> satisfied (fst (snd (operator_call
        (createGuardedFunction counting ''job'' [called_task counting ''dep'']) quiet)))"
  using runs_once_when_all_met [of "createGuardedFunction counting ''job'' [called_task counting ''dep'']" quiet]
  by (simp add: example_defs)

text \<open>
  Claim C4 as stated fails for a callable that throws: a task without requirements
  runs it, the exception leaves the call, and the task is not satisfied afterwards.
\<close>

theorem not_satisfied_after_throw:
  "mRequirements (createGuardedFunction throwing ''job'' []) = []
   \<and> fst (operator_call (createGuardedFunction throwing ''job'' []) quiet) = Some ''broken''
   \<and> \<not> satisfied (fst (snd (operator_call (createGuardedFunction throwing ''job'' []) quiet)))"
  by (simp add: example_defs)

text \<open>
  Claim C5. For every task with at least one requirement whose \<open>satisfied\<close> is false
  at the call, the call does not run the wrapped callable and leaves the task object
  as it was, its flag included; no exception leaves the call, and the only trace is
  the diagnostics written.
\<close>

theorem blocked_when_unmet:
  assumes "\<exists>req\<in>set (mRequirements t). \<not> satisfied req"
  shows "operator_call t w =
           (None, t, w\<lparr>cout := cout w @ reports (mName t) (unmet (mRequirements t))\<rparr>)"
  using assms by (simp add: operator_call_blocked unmet_nonempty emitted_reports)

theorem blocked_when_unmet_witness:
  "map satisfied (mRequirements (createGuardedFunction counting ''job'' [fresh_task counting ''dep''])) = [False]
   \<and> operator_call (createGuardedFunction counting ''job'' [fresh_task counting ''dep'']) quiet
     = (None, createGuardedFunction counting ''job'' [fresh_task counting ''dep''],
        \<lparr>cout = ''Dependency `dep` not met. Blocking `job`'' @ [CHR 0x0A], globals = ()\<rparr>)"
  using blocked_when_unmet [of "createGuardedFunction counting ''job'' [fresh_task counting ''dep'']" quiet]
  by (simp add: example_defs unmet_def reports_def)

text \<open>
  Claim C7, as the code has it. For every task whose requirements are all satisfied
  and whose wrapped callable throws during the call, the same exception leaves the
  call, the flag is left as it was before the call (false for a task that has never
  completed a call), and the world is as the callable left it.
\<close>

theorem fault_propagates:
  assumes "\<forall>req\<in>set (mRequirements t). satisfied req" and "fst (call (mFunction t) w) = Some x"
  shows "fst (operator_call t w) = Some x
       \<and> satisfied (fst (snd (operator_call t w))) = satisfied t
       \<and> snd (snd (operator_call t w)) = after (mFunction t) w"
  using assms
  by (cases "call (mFunction t) w" rule: prod_cases3)
     (simp add: operator_call_open unmet_empty after_def satisfied_def)

theorem fault_propagates_witness:
  "map satisfied (mRequirements (createGuardedFunction throwing ''job'' [called_task lambda_a ''a''])) = [True]
   \<and> fst (call throwing quiet) = Some ''broken''
   \<and> fst (operator_call (createGuardedFunction throwing ''job'' [called_task lambda_a ''a'']) quiet)
       = Some ''broken''
   \<and> \<not> satisfied (fst (snd (operator_call
         (createGuardedFunction throwing ''job'' [called_task lambda_a ''a'']) quiet)))"
  using fault_propagates [of "createGuardedFunction throwing ''job'' [called_task lambda_a ''a'']" quiet "''broken''"]
  by (simp add: example_defs)

text \<open>
  Claim C7 as stated fails for a task that is already satisfied: the first call of
  the once-only callable returns and sets the flag, the second call throws, and the
  flag is still true.
\<close>

theorem flag_stays_set_on_fault:
  "operator_call (createGuardedFunction once_only ''job'' []) not_done
     = (None, GuardedFunction once_only ''job'' [] True, \<lparr>cout = [], globals = True\<rparr>)
   \<and> operator_call (GuardedFunction once_only ''job'' [] True) \<lparr>cout = [], globals = True\<rparr>
     = (Some ''again'', GuardedFunction once_only ''job'' [] True, \<lparr>cout = [], globals = True\<rparr>)
   \<and> satisfied (GuardedFunction once_only ''job'' [] True)"
  by (simp add: example_defs)

text \<open>
  Claim C8. The call operator is not idempotent: the flag does not gate the task
  itself, so two calls of a task without requirements run the wrapped callable twice,
  the second time on what the first left.
\<close>

theorem twice_runs_twice:
  assumes "mRequirements t = []"
  shows "invoke_twice t w =
           (case call (mFunction t) w of (x1, f1, w1) \<Rightarrow>
              (case call f1 w1 of (x2, f2, w2) \<Rightarrow>
                 (x2, GuardedFunction f2 (mName t) [] (x2 = None \<or> x1 = None \<or> mSatisfied t), w2)))"
proof -
  obtain x1 f1 w1 where c1: "call (mFunction t) w = (x1, f1, w1)"
    by (cases "call (mFunction t) w" rule: prod_cases3)
  have first: "operator_call t w = (x1, GuardedFunction f1 (mName t) [] (x1 = None \<or> mSatisfied t), w1)"
    using assms c1 by (simp add: operator_call_open unmet_def)
  show ?thesis
    by (cases "call f1 w1" rule: prod_cases3)
       (simp add: invoke_twice_def first c1 operator_call_open unmet_def)
qed

theorem twice_runs_twice_witness:
  "mRequirements (createGuardedFunction counting ''job'' []) = []
   \<and> invoke_twice (createGuardedFunction counting ''job'' []) quiet
     = (None, GuardedFunction (counting\<lparr>captures := 2\<rparr>) ''job'' [] True, quiet)"
  using twice_runs_twice [of "createGuardedFunction counting ''job'' []" quiet]
  by (simp add: example_defs)

subsection \<open>The flag and the other members over time\<close>

text \<open>
  Claim C6. The flag of every task is false at construction and one-way: no sequence
  of calls of the operator and of the two observers takes it from true back to false.
\<close>

theorem satisfied_one_way:
  "\<not> satisfied (createGuardedFunction f n deps) \<and> (evolves t t' \<longrightarrow> satisfied t \<longrightarrow> satisfied t')"
proof
  show "\<not> satisfied (createGuardedFunction f n deps)"
    by (simp add: satisfied_def createGuardedFunction_def)
  show "evolves t t' \<longrightarrow> satisfied t \<longrightarrow> satisfied t'"
  proof (intro impI)
    assume "evolves t t'" and "satisfied t"
    then show "satisfied t'"
      by (induction rule: evolves.induct) (auto dest: perform_keeps_satisfied)
  qed
qed

theorem satisfied_one_way_witness:
  "\<not> satisfied (createGuardedFunction counting ''job'' [])
   \<and> satisfied (called_task counting ''job'')
   \<and> evolves (called_task counting ''job'')
        (fst (snd (perform Invoke (called_task counting ''job'') quiet)))
   \<and> captures (mFunction (fst (snd (perform Invoke (called_task counting ''job'') quiet)))) = 2
   \<and> satisfied (fst (snd (perform Invoke (called_task counting ''job'') quiet)))"
proof -
  have step: "evolves (called_task counting ''job'')
        (fst (snd (perform Invoke (called_task counting ''job'') quiet)))"
    by (rule evolves_step [OF evolves_refl, of Invoke _ quiet
          "fst (perform Invoke (called_task counting ''job'') quiet)" _
          "snd (snd (perform Invoke (called_task counting ''job'') quiet))"]) simp
  have was: "satisfied (called_task counting ''job'')"
    by (simp add: example_defs)
  have cnt: "captures (mFunction (fst (snd (perform Invoke (called_task counting ''job'') quiet)))) = 2"
    by (simp add: example_defs)
  show ?thesis
    using satisfied_one_way [of counting "''job''" "[]" "called_task counting ''job''"
        "fst (snd (perform Invoke (called_task counting ''job'') quiet))"] step was cnt
    by simp
qed

text \<open>
  Claim C10, as the code has it. Whatever the operation, the name and the stored
  requirements (their flags included) are unchanged after it, and so is the code of
  the wrapped callable. The observers change nothing at all. The call operator
  changes, besides the flag, only the wrapped callable object, and only by calling
  it: the object afterwards is the one its own call operator left, which is the
  object as it was whenever that call left the captures alone. A blocked call leaves
  the whole task as it was.
\<close>

theorem frame:
  assumes "perform oper t w = (r, t', w')"
  shows "mName t' = mName t \<and> mRequirements t' = mRequirements t
       \<and> body (mFunction t') = body (mFunction t)
       \<and> (oper \<noteq> Invoke \<longrightarrow> t' = t \<and> w' = w)
       \<and> (oper = Invoke \<and> (\<exists>req\<in>set (mRequirements t). \<not> satisfied req) \<longrightarrow> t' = t)
       \<and> (mFunction t' = mFunction t \<or>
            oper = Invoke \<and> mFunction t' = fst (snd (call (mFunction t) w)))
       \<and> (fst (snd (body (mFunction t) (captures (mFunction t)) w)) = captures (mFunction t) \<longrightarrow>
            mFunction t' = mFunction t)"
proof (cases oper)
  case Invoke
  show ?thesis
  proof (cases "unmet (mRequirements t) = []")
    case True
    with assms Invoke show ?thesis
      by (cases "call (mFunction t) w" rule: prod_cases3)
         (auto simp: operator_call_open unmet_empty call_def split: option.splits prod.splits)
  next
    case False
    with assms Invoke show ?thesis
      by (auto simp: operator_call_blocked unmet_empty)
  qed
next
  case Satisfied
  with assms show ?thesis by auto
next
  case Name
  with assms show ?thesis by auto
qed

text \<open>
  The task \<^verbatim>\<open>c\<close> with both requirements satisfied: the call runs the lambda, sets the
  flag, and leaves name, requirements and callable as they were.
\<close>

theorem frame_witness:
  "perform Invoke (createGuardedFunction lambda_c ''c'' [called_task lambda_a ''a'', called_task lambda_b ''b'']) quiet
     = (Returned,
        GuardedFunction lambda_c ''c'' [called_task lambda_a ''a'', called_task lambda_b ''b''] True,
        \<lparr>cout = ''c() executed'' @ [CHR 0x0A], globals = ()\<rparr>)
   \<and> mName (GuardedFunction lambda_c ''c'' [called_task lambda_a ''a'', called_task lambda_b ''b''] True) = ''c''
   \<and> mFunction (GuardedFunction lambda_c ''c'' [called_task lambda_a ''a'', called_task lambda_b ''b''] True)
       = mFunction (createGuardedFunction lambda_c ''c'' [called_task lambda_a ''a'', called_task lambda_b ''b''])"
proof -
  have run: "perform Invoke
      (createGuardedFunction lambda_c ''c'' [called_task lambda_a ''a'', called_task lambda_b ''b'']) quiet
     = (Returned,
        GuardedFunction lambda_c ''c'' [called_task lambda_a ''a'', called_task lambda_b ''b''] True,
        \<lparr>cout = ''c() executed'' @ [CHR 0x0A], globals = ()\<rparr>)"
    by (simp add: example_defs)
  show ?thesis
    using frame [OF run] run by (simp add: createGuardedFunction_def)
qed

text \<open>
  Claim C10 as stated fails for a callable that changes itself when called: after one
  call of a task wrapping the counting callable, the stored callable is not the one
  stored at construction.
\<close>

theorem callable_changes_itself:
  "captures (mFunction (createGuardedFunction counting ''job'' [])) = 0
   \<and> captures (mFunction (fst (snd (perform Invoke (createGuardedFunction counting ''job'' []) quiet)))) = 1
   \<and> mFunction (fst (snd (perform Invoke (createGuardedFunction counting ''job'' []) quiet)))
     \<noteq> mFunction (createGuardedFunction counting ''job'' [])"
  by (simp add: example_defs)

end
